theory Spec2Isabelle
  imports Complex_Main "HOL-Library.Word"
begin

section \<open>Data model\<close>

text \<open>
  The two variable processors of PhysicsTools/MVAComputer, \<^verbatim>\<open>ProcLikelihood.cc\<close> and
  \<^verbatim>\<open>ProcNormalize.cc\<close>. C++ \<^verbatim>\<open>double\<close> is modelled by \<^typ>\<open>real\<close>: rounding, underflow to
  zero, infinities and NaN are outside the model. \<^verbatim>\<open>unsigned int\<close> is \<^typ>\<open>32 word\<close> read through
  \<^const>\<open>unat\<close>, \<^verbatim>\<open>int\<close> is \<^typ>\<open>32 word\<close> read through \<^const>\<open>sint\<close>, and the size of a \<^verbatim>\<open>std::vector\<close> is the
  length of a list (\<^verbatim>\<open>size_t\<close> is taken to be at least 32 bits wide, so converting an
  \<^verbatim>\<open>unsigned int\<close> to it keeps the value). Undefined behaviour of the C++ is an error value.
\<close>

datatype error =
    DivisionByZero      \<comment> \<open>integer division by zero\<close>
  | SignedOverflow      \<comment> \<open>overflow of signed \<^verbatim>\<open>int\<close> arithmetic\<close>
  | BadConversion       \<comment> \<open>\<^verbatim>\<open>(int)\<close> of a double whose truncation does not fit an \<^verbatim>\<open>int\<close>\<close>
  | NoValue             \<comment> \<open>read of a value that the current slot does not hold\<close>
  | OutOfBounds         \<comment> \<open>iterator arithmetic beyond the end of the vector\<close>

subsection \<open>Calibration objects\<close>

text \<open>
  \<^verbatim>\<open>Spline\<close> and \<^verbatim>\<open>Calibration::HistogramF\<close> are declared in headers outside the two source
  files. They are immutable once built, so each is taken as a parameter: the record of the
  member functions the processors call on it.
\<close>

record Spline =
  spline_eval :: "real \<Rightarrow> real"          \<comment> \<open>\<^verbatim>\<open>Spline::eval\<close>\<close>
  spline_integral :: "real \<Rightarrow> real"      \<comment> \<open>\<^verbatim>\<open>Spline::integral\<close>\<close>
  numberOfEntries :: real                 \<comment> \<open>\<^verbatim>\<open>Spline::numberOfEntries\<close>\<close>
  getArea :: real                         \<comment> \<open>\<^verbatim>\<open>Spline::getArea\<close>\<close>

record HistogramF =
  normalizedValue :: "real \<Rightarrow> real"      \<comment> \<open>\<^verbatim>\<open>HistogramF::normalizedValue\<close>\<close>
  numberOfBins :: real                    \<comment> \<open>\<^verbatim>\<open>HistogramF::numberOfBins\<close>\<close>

text \<open>\<^verbatim>\<open>struct PDF\<close> with its two subclasses (ProcLikelihood.cc, lines 44 to 73).\<close>

datatype PDF =
    SplinePDF real real Spline        \<comment> \<open>\<^verbatim>\<open>min\<close>, \<^verbatim>\<open>width\<close>, \<^verbatim>\<open>spline\<close>\<close>
  | HistogramPDF HistogramF           \<comment> \<open>\<^verbatim>\<open>histo\<close>\<close>

text \<open>\<^verbatim>\<open>SplinePDF::eval\<close> and \<^verbatim>\<open>HistogramPDF::eval\<close> (ProcLikelihood.cc, lines 103 to 113).\<close>

fun PDF_eval :: "PDF \<Rightarrow> real \<Rightarrow> real" where
  "PDF_eval (SplinePDF mn width spline) value =
     spline_eval spline ((value - mn) / width) * numberOfEntries spline / getArea spline"
| "PDF_eval (HistogramPDF histo) value = normalizedValue histo value * numberOfBins histo"

record SigBkg =
  signal :: PDF
  background :: PDF

text \<open>\<^verbatim>\<open>struct Map\<close> (ProcNormalize.cc, lines 43 to 55); the field \<^verbatim>\<open>min\<close> is \<open>range_min\<close> here.\<close>

record Map =
  range_min :: real
  width :: real
  spline :: Spline

subsection \<open>The processors\<close>

record ProcLikelihood =
  pdfs :: "SigBkg list"
  categoryIdx :: "32 word"
  nCategories :: "32 word"
  bias :: real

record ProcNormalize =
  maps :: "Map list"
  categoryIdx :: "32 word"
  nCategories :: "32 word"

subsection \<open>The configuration cursor\<close>

text \<open>
  Modelled from the spec: \<^verbatim>\<open>ConfIterator\<close> and \<^verbatim>\<open>Variable::Flags\<close> are declared in
  VarProcessor.h and Variable.h, which are not among the source files. The spec (section 6)
  describes a configuration cursor over ordered input slots with a per-slot declaration of
  the accepted or produced arity, from the vocabulary "exactly one value"
  (\<^verbatim>\<open>FLAG_NONE\<close>), "any number of values" (\<^verbatim>\<open>FLAG_ALL\<close>), and a declaration that an
  output is optional (\<^verbatim>\<open>FLAG_OPTIONAL\<close>). The cursor holds the number of input slots
  not yet visited, the flags declared for the inputs visited so far, and the flags of the
  outputs declared so far.
\<close>

datatype Flags = FLAG_NONE | FLAG_OPTIONAL | FLAG_ALL

record ConfIterator =
  slots_left :: nat
  in_flags :: "Flags list"
  out_flags :: "Flags list"

text \<open>Modelled from the spec: \<^verbatim>\<open>operator bool\<close>, an input slot is left.\<close>

definition conf_more :: "ConfIterator \<Rightarrow> bool" where
  "conf_more iter = (0 < slots_left iter)"

text \<open>Modelled from the spec: \<^verbatim>\<open>iter++(flag)\<close>, declare the current input and go to the next.\<close>

definition conf_next :: "Flags \<Rightarrow> ConfIterator \<Rightarrow> ConfIterator" where
  "conf_next flag iter =
     iter\<lparr>slots_left := slots_left iter - 1, in_flags := in_flags iter @ [flag]\<rparr>"

text \<open>Modelled from the spec: \<^verbatim>\<open>iter << flag\<close>, declare one more output.\<close>

definition conf_output :: "Flags \<Rightarrow> ConfIterator \<Rightarrow> ConfIterator" where
  "conf_output flag iter = iter\<lparr>out_flags := out_flags iter @ [flag]\<rparr>"

definition conf_begin :: "nat \<Rightarrow> ConfIterator" where
  "conf_begin k = \<lparr>slots_left = k, in_flags = [], out_flags = []\<rparr>"

section \<open>Configuration\<close>

text \<open>
  The shape validation is the same text in both processors (ProcLikelihood.cc, lines 128
  to 135, with \<^verbatim>\<open>pdfs.size()\<close>; ProcNormalize.cc, lines 76 to 83, with \<^verbatim>\<open>maps.size()\<close>).
  The result is the value of the \<^verbatim>\<open>nCategories\<close> field afterwards and whether the
  function goes on to declare its variables (\<open>False\<close> is one of the three \<^verbatim>\<open>return\<close>s).
\<close>

definition check_shape :: "32 word \<Rightarrow> 32 word \<Rightarrow> 32 word \<Rightarrow> nat \<Rightarrow> error + (32 word \<times> bool)" where
  "check_shape catIdx nCat n sz =
     (if 0 \<le> sint catIdx then
        if sint catIdx = 2 ^ 31 - 1 then Inl SignedOverflow
        else if sint n < sint catIdx + 1 then Inr (nCat, False)
        else if n - 1 = 0 then Inl DivisionByZero
        else
          let nCat' = (word_of_nat (sz div unat (n - 1)) :: 32 word) in
          if unat (nCat' * (n - 1)) \<noteq> sz then Inr (nCat', False)
          else Inr (nCat', True)
      else if unat n \<noteq> sz then Inr (nCat, False)
      else Inr (nCat, True))"

text \<open>The declaration loop of \<^verbatim>\<open>ProcLikelihood::configure\<close> (lines 137 to 143).\<close>

function likelihood_declare :: "32 word \<Rightarrow> int \<Rightarrow> ConfIterator \<Rightarrow> ConfIterator" where
  "likelihood_declare catIdx i iter =
     (if conf_more iter then
        if sint catIdx = i then likelihood_declare catIdx (i + 1) (conf_next FLAG_NONE iter)
        else likelihood_declare catIdx (i + 1) (conf_next FLAG_ALL iter)
      else iter)"
  by pat_completeness auto
termination
  by (relation "measure (\<lambda>(catIdx, i, iter). slots_left iter)")
     (auto simp: conf_more_def conf_next_def)

declare likelihood_declare.simps [simp del]

text \<open>\<^verbatim>\<open>ProcLikelihood::configure\<close> (lines 126 to 146).\<close>

definition ProcLikelihood_configure ::
  "ProcLikelihood \<Rightarrow> ConfIterator \<Rightarrow> 32 word \<Rightarrow> error + (ProcLikelihood \<times> ConfIterator)" where
  "ProcLikelihood_configure p iter n =
     (case check_shape (ProcLikelihood.categoryIdx p) (ProcLikelihood.nCategories p) n
             (length (pdfs p)) of
        Inl e \<Rightarrow> Inl e
      | Inr (nCat, ok) \<Rightarrow>
          let p' = p\<lparr>ProcLikelihood.nCategories := nCat\<rparr> in
          if \<not> ok then Inr (p', iter)
          else Inr (p', conf_output FLAG_OPTIONAL
                          (likelihood_declare (ProcLikelihood.categoryIdx p) 0 iter)))"

text \<open>
  The declaration loop of \<^verbatim>\<open>ProcNormalize::configure\<close> (lines 85 to 91):
  \<^verbatim>\<open>iter << iter++(Variable::FLAG_ALL)\<close> declares the input and an output of the same arity.
\<close>

function normalize_declare :: "32 word \<Rightarrow> int \<Rightarrow> ConfIterator \<Rightarrow> ConfIterator" where
  "normalize_declare catIdx i iter =
     (if conf_more iter then
        if sint catIdx = i then normalize_declare catIdx (i + 1) (conf_next FLAG_NONE iter)
        else normalize_declare catIdx (i + 1) (conf_output FLAG_ALL (conf_next FLAG_ALL iter))
      else iter)"
  by pat_completeness auto
termination
  by (relation "measure (\<lambda>(catIdx, i, iter). slots_left iter)")
     (auto simp: conf_more_def conf_next_def conf_output_def)

declare normalize_declare.simps [simp del]

text \<open>\<^verbatim>\<open>ProcNormalize::configure\<close> (lines 74 to 92).\<close>

definition ProcNormalize_configure ::
  "ProcNormalize \<Rightarrow> ConfIterator \<Rightarrow> 32 word \<Rightarrow> error + (ProcNormalize \<times> ConfIterator)" where
  "ProcNormalize_configure p iter n =
     (case check_shape (ProcNormalize.categoryIdx p) (ProcNormalize.nCategories p) n
             (length (maps p)) of
        Inl e \<Rightarrow> Inl e
      | Inr (nCat, ok) \<Rightarrow>
          let p' = p\<lparr>ProcNormalize.nCategories := nCat\<rparr> in
          if \<not> ok then Inr (p', iter)
          else Inr (p', normalize_declare (ProcNormalize.categoryIdx p) 0 iter))"


section \<open>Evaluation\<close>

subsection \<open>The evaluation cursor\<close>

text \<open>
  Modelled from the spec: \<^verbatim>\<open>ValueIterator\<close> is declared in VarProcessor.h, which is not
  among the source files. The spec (section 6) describes an evaluation cursor over ordered
  input slots that supports reading the current slot's values as an ordered sequence of
  doubles, advancing to the next slot, emitting zero or more output values for the current
  output, and emitting "no value". The cursor holds the input slots from the current one on,
  the values written to the output that is still open, and the outputs closed so far.
\<close>

record ValueIterator =
  inputs :: "real list list"
  pending :: "real list"
  outputs :: "real list list"

text \<open>Modelled from the spec: \<^verbatim>\<open>operator bool\<close>, the cursor is on an input slot.\<close>

definition iter_more :: "ValueIterator \<Rightarrow> bool" where
  "iter_more iter = (inputs iter \<noteq> [])"

text \<open>Modelled from the spec: \<^verbatim>\<open>iter.begin()\<close> to \<^verbatim>\<open>iter.end()\<close>, the values of the current slot.\<close>

definition iter_values :: "ValueIterator \<Rightarrow> error + real list" where
  "iter_values iter = (case inputs iter of [] \<Rightarrow> Inl NoValue | vs # _ \<Rightarrow> Inr vs)"

text \<open>Modelled from the spec: \<^verbatim>\<open>*iter\<close>, the first value of the current slot.\<close>

definition iter_deref :: "ValueIterator \<Rightarrow> error + real" where
  "iter_deref iter =
     (case inputs iter of [] \<Rightarrow> Inl NoValue | [] # _ \<Rightarrow> Inl NoValue | (v # _) # _ \<Rightarrow> Inr v)"

text \<open>Modelled from the spec: \<^verbatim>\<open>++iter\<close>, go to the next input slot.\<close>

definition iter_advance :: "ValueIterator \<Rightarrow> ValueIterator" where
  "iter_advance iter = iter\<lparr>inputs := tl (inputs iter)\<rparr>"

text \<open>Modelled from the spec: \<^verbatim>\<open>iter << value\<close>, write one value to the open output.\<close>

definition iter_put :: "real \<Rightarrow> ValueIterator \<Rightarrow> ValueIterator" where
  "iter_put v iter = iter\<lparr>pending := pending iter @ [v]\<rparr>"

text \<open>
  Modelled from the spec: \<^verbatim>\<open>iter()\<close>, close the open output with the values written to it
  (none, when nothing was written: the "no value" of an abstention).
\<close>

definition iter_close :: "ValueIterator \<Rightarrow> ValueIterator" where
  "iter_close iter = iter\<lparr>pending := [], outputs := outputs iter @ [pending iter]\<rparr>"

text \<open>Modelled from the spec: \<^verbatim>\<open>iter(value)\<close>, write one value and close the output.\<close>

definition iter_emit :: "real \<Rightarrow> ValueIterator \<Rightarrow> ValueIterator" where
  "iter_emit v iter = iter_close (iter_put v iter)"

definition iter_begin :: "real list list \<Rightarrow> ValueIterator" where
  "iter_begin slots = \<lparr>inputs = slots, pending = [], outputs = []\<rparr>"

subsection \<open>Selecting the block of the category\<close>

text \<open>
  The cast \<^verbatim>\<open>(int)\<close> of a double truncates towards zero; it is undefined when the
  truncated value is not an \<^verbatim>\<open>int\<close>.
\<close>

definition double_to_int :: "real \<Rightarrow> error + int" where
  "double_to_int x =
     (let t = (if 0 \<le> x then \<lfloor>x\<rfloor> else \<lceil>x\<rceil>) in
      if - (2 ^ 31) \<le> t \<and> t < 2 ^ 31 then Inr t else Inl BadConversion)"

text \<open>
  The category as \<^verbatim>\<open>eval\<close> reads it (ProcLikelihood.cc, lines 154 to 158; ProcNormalize.cc,
  lines 100 to 104): \<^verbatim>\<open>iter2\<close> is a copy of the cursor moved \<^verbatim>\<open>categoryIdx\<close> slots on,
  and the value is then read through \<^verbatim>\<open>iter\<close>.
\<close>

definition read_category :: "32 word \<Rightarrow> ValueIterator \<Rightarrow> error + int" where
  "read_category catIdx iter =
     (let iter2 = (iter_advance ^^ nat (sint catIdx)) iter in
      case iter_deref iter of Inl e \<Rightarrow> Inl e | Inr x \<Rightarrow> double_to_int x)"

text \<open>
  The first part of \<^verbatim>\<open>eval\<close>, the same text in both processors (ProcLikelihood.cc, lines
  153 to 169; ProcNormalize.cc, lines 99 to 116): \<open>Inr None\<close> is the branch of a category
  out of range, \<open>Inr (Some block)\<close> the elements from \<^verbatim>\<open>pdf\<close> up to \<^verbatim>\<open>last\<close>.
\<close>

definition select_block ::
  "32 word \<Rightarrow> 32 word \<Rightarrow> 'a list \<Rightarrow> 32 word \<Rightarrow> ValueIterator \<Rightarrow> error + 'a list option" where
  "select_block catIdx nCat table n iter =
     (if 0 \<le> sint catIdx then
        case read_category catIdx iter of
          Inl e \<Rightarrow> Inl e
        | Inr cat \<Rightarrow>
            if cat < 0 \<or> uint nCat \<le> cat then Inr None
            else
              let first = unat ((word_of_int cat :: 32 word) * (n - 1));
                  len = unat (n - 1) in
              if length table < first + len then Inl OutOfBounds
              else Inr (Some (take len (drop first table)))
      else Inr (Some table))"

subsection \<open>The likelihood ratio\<close>

text \<open>The inner loop of \<^verbatim>\<open>ProcLikelihood::eval\<close> (lines 178 to 189) over the values of a slot.\<close>

fun likelihood_values :: "SigBkg \<Rightarrow> real list \<Rightarrow> int \<times> real \<times> real \<Rightarrow> int \<times> real \<times> real" where
  "likelihood_values pdf [] acc = acc"
| "likelihood_values pdf (v # vs) (vars, sig, bkg) =
     (let signalProb = max 0 (PDF_eval (signal pdf) v);
          backgroundProb = max 0 (PDF_eval (background pdf) v) in
      if signalProb + backgroundProb < 1 / 10 ^ 30
      then likelihood_values pdf vs (vars, sig, bkg)
      else likelihood_values pdf vs (vars + 1, sig * signalProb, bkg * backgroundProb))"

text \<open>The outer loop (lines 175 to 191): it ends when \<^verbatim>\<open>pdf\<close> reaches \<^verbatim>\<open>last\<close>.\<close>

function likelihood_loop ::
  "32 word \<Rightarrow> SigBkg list \<Rightarrow> int \<Rightarrow> ValueIterator \<Rightarrow> int \<times> real \<times> real
     \<Rightarrow> error + (ValueIterator \<times> int \<times> real \<times> real)" where
  "likelihood_loop catIdx [] i iter acc = Inr (iter, acc)"
| "likelihood_loop catIdx (pdf # rest) i iter acc =
     (if i = sint catIdx then likelihood_loop catIdx (pdf # rest) (i + 1) (iter_advance iter) acc
      else
        case iter_values iter of
          Inl e \<Rightarrow> Inl e
        | Inr vs \<Rightarrow>
            likelihood_loop catIdx rest (i + 1) (iter_advance iter) (likelihood_values pdf vs acc))"
  by pat_completeness auto
termination
  by (relation "measure (\<lambda>(catIdx, block, i, iter, acc).
                   2 * length block + (if i = sint catIdx then 1 else 0))") auto

text \<open>\<^verbatim>\<open>ProcLikelihood::eval\<close> (lines 148 to 197).\<close>

definition ProcLikelihood_eval ::
  "ProcLikelihood \<Rightarrow> ValueIterator \<Rightarrow> 32 word \<Rightarrow> error + ValueIterator" where
  "ProcLikelihood_eval p iter n =
     (case select_block (ProcLikelihood.categoryIdx p) (ProcLikelihood.nCategories p)
             (pdfs p) n iter of
        Inl e \<Rightarrow> Inl e
      | Inr None \<Rightarrow> Inr (iter_close iter)
      | Inr (Some block) \<Rightarrow>
          (case likelihood_loop (ProcLikelihood.categoryIdx p) block 0 iter (0, bias p, 1) of
             Inl e \<Rightarrow> Inl e
           | Inr (iter', vars, sig, bkg) \<Rightarrow>
               if vars = 0 \<or> sig + bkg < exp (of_int (- 6 * vars - 2))
               then Inr (iter_close iter')
               else Inr (iter_emit (sig / (sig + bkg)) iter')))"

subsection \<open>The normalization\<close>

text \<open>The inner loop of \<^verbatim>\<open>ProcNormalize::eval\<close> (lines 121 to 127) over the values of a slot.\<close>

fun normalize_values :: "Map \<Rightarrow> real list \<Rightarrow> ValueIterator \<Rightarrow> ValueIterator" where
  "normalize_values m [] iter = iter"
| "normalize_values m (v # vs) iter =
     normalize_values m vs
       (iter_put (spline_integral (spline m) ((v - range_min m) / width m)) iter)"

text \<open>The outer loop (lines 118 to 130).\<close>

function normalize_loop ::
  "32 word \<Rightarrow> Map list \<Rightarrow> int \<Rightarrow> ValueIterator \<Rightarrow> error + ValueIterator" where
  "normalize_loop catIdx [] i iter = Inr iter"
| "normalize_loop catIdx (m # rest) i iter =
     (if i = sint catIdx then normalize_loop catIdx (m # rest) (i + 1) (iter_advance iter)
      else
        case iter_values iter of
          Inl e \<Rightarrow> Inl e
        | Inr vs \<Rightarrow>
            normalize_loop catIdx rest (i + 1)
              (iter_advance (iter_close (normalize_values m vs iter))))"
  by pat_completeness auto
termination
  by (relation "measure (\<lambda>(catIdx, block, i, iter).
                   2 * length block + (if i = sint catIdx then 1 else 0))") auto

text \<open>The loop of the branch of a category out of range (lines 106 to 107).\<close>

function normalize_abstain :: "ValueIterator \<Rightarrow> ValueIterator" where
  "normalize_abstain iter =
     (if iter_more iter then normalize_abstain (iter_advance (iter_close iter)) else iter)"
  by pat_completeness auto
termination
  by (relation "measure (\<lambda>iter. length (inputs iter))")
     (auto simp: iter_more_def iter_advance_def iter_close_def)

declare normalize_abstain.simps [simp del]

text \<open>\<^verbatim>\<open>ProcNormalize::eval\<close> (lines 94 to 131).\<close>

definition ProcNormalize_eval ::
  "ProcNormalize \<Rightarrow> ValueIterator \<Rightarrow> 32 word \<Rightarrow> error + ValueIterator" where
  "ProcNormalize_eval p iter n =
     (case select_block (ProcNormalize.categoryIdx p) (ProcNormalize.nCategories p)
             (maps p) n iter of
        Inl e \<Rightarrow> Inl e
      | Inr None \<Rightarrow> Inr (normalize_abstain iter)
      | Inr (Some block) \<Rightarrow> normalize_loop (ProcNormalize.categoryIdx p) block 0 iter)"


section \<open>The properties, in the words of the specification\<close>

text \<open>
  A processor has been configured for \<open>n\<close> slots when the shape validation of
  \<^verbatim>\<open>configure\<close> passes on it and leaves the \<^verbatim>\<open>nCategories\<close> field as it is: the
  state in which the pipeline evaluates events.
\<close>

definition configured :: "32 word \<Rightarrow> 32 word \<Rightarrow> 32 word \<Rightarrow> nat \<Rightarrow> bool" where
  "configured catIdx nCat n sz = (check_shape catIdx nCat n sz = Inr (nCat, True))"

text \<open>The slots of an event without the slot of index \<^verbatim>\<open>categoryIdx\<close>, in order.\<close>

definition non_category_slots :: "32 word \<Rightarrow> 'a list \<Rightarrow> 'a list" where
  "non_category_slots catIdx slots =
     (if 0 \<le> sint catIdx
      then take (nat (sint catIdx)) slots @ drop (Suc (nat (sint catIdx))) slots
      else slots)"

text \<open>The same list as the loops meet it: the slots from index \<open>i\<close> on, without index \<open>c\<close>.\<close>

fun without_category :: "int \<Rightarrow> int \<Rightarrow> 'a list \<Rightarrow> 'a list" where
  "without_category c i [] = []"
| "without_category c i (s # ss) =
     (if i = c then without_category c (i + 1) ss else s # without_category c (i + 1) ss)"

text \<open>
  Section 4.2 of the specification, step 3: the clamped densities \<open>sp\<close> and \<open>bp\<close> of a
  value under its PDF pair; a value is informative unless \<open>sp + bp < 1e-30\<close>.
\<close>

definition clamped_signal :: "SigBkg \<times> real \<Rightarrow> real" where
  "clamped_signal = (\<lambda>(pdf, v). max 0 (PDF_eval (signal pdf) v))"

definition clamped_background :: "SigBkg \<times> real \<Rightarrow> real" where
  "clamped_background = (\<lambda>(pdf, v). max 0 (PDF_eval (background pdf) v))"

definition informative :: "SigBkg \<times> real \<Rightarrow> bool" where
  "informative pv = (\<not> clamped_signal pv + clamped_background pv < 1 / 10 ^ 30)"

text \<open>Every value of every slot with the PDF pair of its slot, in the order of the walk.\<close>

definition paired_values :: "SigBkg list \<Rightarrow> real list list \<Rightarrow> (SigBkg \<times> real) list" where
  "paired_values block slots = concat (map (\<lambda>(pdf, vs). map (Pair pdf) vs) (zip block slots))"

definition informative_values :: "SigBkg list \<Rightarrow> real list list \<Rightarrow> (SigBkg \<times> real) list" where
  "informative_values block slots = filter informative (paired_values block slots)"

text \<open>
  The three accumulators of section 4.2: the count of informative values, the signal
  started at the bias and the background started at 1.
\<close>

definition informative_count :: "(SigBkg \<times> real) list \<Rightarrow> int" where
  "informative_count ivs = int (length ivs)"

definition combined_signal :: "real \<Rightarrow> (SigBkg \<times> real) list \<Rightarrow> real" where
  "combined_signal b ivs = b * prod_list (map clamped_signal ivs)"

definition combined_background :: "(SigBkg \<times> real) list \<Rightarrow> real" where
  "combined_background ivs = 1 * prod_list (map clamped_background ivs)"

text \<open>Section 4.3 of the specification, step 2: \<open>u = (v - min) / width\<close>, \<open>out = integral(u)\<close>.\<close>

definition normalized :: "Map \<Rightarrow> real \<Rightarrow> real" where
  "normalized m v = spline_integral (spline m) ((v - range_min m) / width m)"

subsection \<open>Calibration objects of the examples\<close>

text \<open>A PDF pair whose signal density is \<open>s\<close> and whose background density is \<open>b\<close> everywhere.\<close>

definition constant_histogram :: "real \<Rightarrow> HistogramF" where
  "constant_histogram d = \<lparr>normalizedValue = (\<lambda>_. d), numberOfBins = 1\<rparr>"

definition constant_pair :: "real \<Rightarrow> real \<Rightarrow> SigBkg" where
  "constant_pair s b =
     \<lparr>signal = HistogramPDF (constant_histogram s),
      background = HistogramPDF (constant_histogram b)\<rparr>"

text \<open>The map of a uniform distribution on the unit interval: its integral is the identity.\<close>

definition uniform_map :: Map where
  "uniform_map =
     \<lparr>range_min = 0, width = 1,
      spline = \<lparr>spline_eval = (\<lambda>_. 1), spline_integral = (\<lambda>u. u),
                 numberOfEntries = 1, getArea = 1\<rparr>\<rparr>"

section \<open>Configuration: the shape validation\<close>

lemma check_passes_exact:
  fixes n :: "32 word"
  assumes "unat ((word_of_nat (sz div unat (n - 1)) :: 32 word) * (n - 1)) = sz"
  shows "unat (word_of_nat (sz div unat (n - 1)) :: 32 word) = sz div unat (n - 1)"
    and "sz = (sz div unat (n - 1)) * unat (n - 1)"
proof -
  let ?m = "unat (n - 1)"
  let ?q = "word_of_nat (sz div ?m) :: 32 word"
  have "unat (?q * (n - 1)) < 2 ^ 32"
    using unsigned_less [of "?q * (n - 1)"] by simp
  with assms have sz: "sz < 2 ^ 32" by simp
  have "sz div ?m \<le> sz" by simp
  then have "sz div ?m < 2 ^ 32" using sz by (rule le_less_trans)
  then have q: "unat ?q = sz div ?m"
    by (simp add: unat_of_nat)
  then show "unat ?q = sz div ?m" .
  have "sz div ?m * ?m \<le> sz" by simp
  then have "sz div ?m * ?m < 2 ^ 32" using sz by (rule le_less_trans)
  then have "unat (?q * (n - 1)) = sz div ?m * ?m"
    by (simp add: unat_word_ariths q)
  with assms show "sz = sz div ?m * ?m" by simp
qed

lemma check_shape_configured:
  "check_shape catIdx nCat n sz = Inr (nCat', True) \<Longrightarrow> configured catIdx nCat' n sz"
  by (auto simp: configured_def check_shape_def Let_def split: if_splits)

lemma configured_category:
  assumes "configured catIdx nCat n sz" and "0 \<le> sint catIdx"
  shows "sz = unat nCat * unat (n - 1)" and "sint catIdx < sint n" and "n - 1 \<noteq> 0"
    and "unat n = Suc (unat (n - 1))" and "nat (sint catIdx) < unat n" and "sz < 2 ^ 32"
proof -
  from assms have adm: "\<not> sint n < sint catIdx + 1" and nz: "n - 1 \<noteq> 0"
    and nc: "nCat = word_of_nat (sz div unat (n - 1))"
    and chk: "unat ((word_of_nat (sz div unat (n - 1)) :: 32 word) * (n - 1)) = sz"
    by (auto simp: configured_def check_shape_def Let_def split: if_splits)
  from adm show lt: "sint catIdx < sint n" by simp
  have "unat ((word_of_nat (sz div unat (n - 1)) :: 32 word) * (n - 1)) < 2 ^ 32"
    using unsigned_less [of "(word_of_nat (sz div unat (n - 1)) :: 32 word) * (n - 1)"] by simp
  with chk show "sz < 2 ^ 32" by simp
  from nz show "n - 1 \<noteq> 0" .
  from check_passes_exact [OF chk] nc show "sz = unat nCat * unat (n - 1)" by simp
  have n0: "n \<noteq> 0" using lt assms(2) by auto
  then show un: "unat n = Suc (unat (n - 1))"
    by (metis Suc_pred' unat_gt_0 unat_minus_one)
  have "0 \<le> sint n" using lt assms(2) by simp
  moreover have "sint n < 2 ^ 32"
    using sint_lt [of n] by simp
  ultimately have "take_bit 32 (sint n) = sint n"
    by (simp add: take_bit_int_eq_self)
  then have "uint n = sint n"
    using uint_sint [of n] by simp
  with lt assms(2) show "nat (sint catIdx) < unat n"
    by (simp add: nat_less_iff)
qed

lemma configured_no_category:
  "configured catIdx nCat n sz \<Longrightarrow> sint catIdx < 0 \<Longrightarrow> sz = unat n"
  by (auto simp: configured_def check_shape_def Let_def split: if_splits)

lemma check_shape_mismatch:
  assumes "check_shape catIdx nCat n sz = Inr (nCat', ok)"
    and "if 0 \<le> sint catIdx then \<nexists>k. sz = k * unat (n - 1) else sz \<noteq> unat n"
  shows "\<not> ok"
proof
  assume ok
  with assms(1) have conf: "configured catIdx nCat' n sz"
    by (simp add: check_shape_configured)
  show False
  proof (cases "0 \<le> sint catIdx")
    case True
    from configured_category(1) [OF conf True] assms(2) True show False by auto
  next
    case False
    with configured_no_category [OF conf] assms(2) show False by auto
  qed
qed

lemma check_shape_returns:
  "n - 1 \<noteq> 0 \<Longrightarrow> sint catIdx \<noteq> 2 ^ 31 - 1 \<Longrightarrow> \<exists>r. check_shape catIdx nCat n sz = Inr r"
  by (auto simp: check_shape_def Let_def)

lemma configure_mismatch:
  assumes "if 0 \<le> sint catIdx then \<nexists>k. sz = k * unat (n - 1) else sz \<noteq> unat n"
  shows "ProcLikelihood.categoryIdx p = catIdx \<Longrightarrow> length (pdfs p) = sz \<Longrightarrow>
         ProcLikelihood_configure p iter n = Inr (p', iter') \<Longrightarrow> iter' = iter"
    and "ProcNormalize.categoryIdx q = catIdx \<Longrightarrow> length (maps q) = sz \<Longrightarrow>
         ProcNormalize_configure q iter n = Inr (q', iter') \<Longrightarrow> iter' = iter"
  using check_shape_mismatch [OF _ assms]
  by (auto simp: ProcLikelihood_configure_def ProcNormalize_configure_def Let_def
           split: sum.splits prod.splits if_splits)

text \<open>A successful \<^verbatim>\<open>configure\<close> leaves the processor configured for its slot count.\<close>

lemma ProcLikelihood_configure_configured:
  assumes "ProcLikelihood_configure p iter n = Inr (p', iter')" and "iter' \<noteq> iter"
  shows "configured (ProcLikelihood.categoryIdx p') (ProcLikelihood.nCategories p') n
           (length (pdfs p'))"
proof (cases "check_shape (ProcLikelihood.categoryIdx p) (ProcLikelihood.nCategories p) n
                (length (pdfs p))")
  case (Inl e)
  with assms(1) show ?thesis by (simp add: ProcLikelihood_configure_def)
next
  case (Inr r)
  obtain nCat ok where r: "r = (nCat, ok)" by (cases r)
  from assms Inr r have ok and p': "p' = p\<lparr>ProcLikelihood.nCategories := nCat\<rparr>"
    by (auto simp: ProcLikelihood_configure_def Let_def split: if_splits)
  from Inr r \<open>ok\<close> have "configured (ProcLikelihood.categoryIdx p) nCat n (length (pdfs p))"
    by (simp add: check_shape_configured)
  with p' show ?thesis by simp
qed

lemma ProcNormalize_configure_configured:
  assumes "ProcNormalize_configure p iter n = Inr (p', iter')" and "iter' \<noteq> iter"
  shows "configured (ProcNormalize.categoryIdx p') (ProcNormalize.nCategories p') n
           (length (maps p'))"
proof (cases "check_shape (ProcNormalize.categoryIdx p) (ProcNormalize.nCategories p) n
                (length (maps p))")
  case (Inl e)
  with assms(1) show ?thesis by (simp add: ProcNormalize_configure_def)
next
  case (Inr r)
  obtain nCat ok where r: "r = (nCat, ok)" by (cases r)
  from assms Inr r have ok and p': "p' = p\<lparr>ProcNormalize.nCategories := nCat\<rparr>"
    by (auto simp: ProcNormalize_configure_def Let_def split: if_splits)
  from Inr r \<open>ok\<close> have "configured (ProcNormalize.categoryIdx p) nCat n (length (maps p))"
    by (simp add: check_shape_configured)
  with p' show ?thesis by simp
qed

text \<open>
  The example of the specification: four slots and a table of five entries. The quotient
  is 1, the product \<^verbatim>\<open>1 * 3\<close> is not 5, and nothing is declared. With six entries the
  category slot is declared with one value and the others with any number of values.
\<close>

lemma four_slots_five_entries:
  "ProcLikelihood_configure
     \<lparr>pdfs = replicate 5 (constant_pair 1 1), categoryIdx = 0, nCategories = 1, bias = 1\<rparr>
     (conf_begin 4) 4
   = Inr (\<lparr>pdfs = replicate 5 (constant_pair 1 1), categoryIdx = 0, nCategories = 1, bias = 1\<rparr>,
          conf_begin 4)"
  by (simp add: ProcLikelihood_configure_def check_shape_def)

lemma likelihood_declare_example:
  "ProcLikelihood_configure
     \<lparr>pdfs = replicate 6 (constant_pair 1 1), categoryIdx = 0, nCategories = 1, bias = 1\<rparr>
     (conf_begin 4) 4
   = Inr (\<lparr>pdfs = replicate 6 (constant_pair 1 1), categoryIdx = 0, nCategories = 2, bias = 1\<rparr>,
          \<lparr>slots_left = 0, in_flags = [FLAG_NONE, FLAG_ALL, FLAG_ALL, FLAG_ALL],
           out_flags = [FLAG_OPTIONAL]\<rparr>)"
  by (simp add: ProcLikelihood_configure_def check_shape_def likelihood_declare.simps
       conf_begin_def conf_more_def conf_next_def conf_output_def)

lemma normalize_declare_example:
  "ProcNormalize_configure
     \<lparr>maps = replicate 6 uniform_map, categoryIdx = 0, nCategories = 1\<rparr>
     (conf_begin 4) 4
   = Inr (\<lparr>maps = replicate 6 uniform_map, categoryIdx = 0, nCategories = 2\<rparr>,
          \<lparr>slots_left = 0, in_flags = [FLAG_NONE, FLAG_ALL, FLAG_ALL, FLAG_ALL],
           out_flags = [FLAG_ALL, FLAG_ALL, FLAG_ALL]\<rparr>)"
  by (simp add: ProcNormalize_configure_def check_shape_def normalize_declare.simps
       conf_begin_def conf_more_def conf_next_def conf_output_def)

section \<open>The claims about configuration\<close>

text \<open>
  Claim C3 says that the divisor \<^verbatim>\<open>n - 1\<close> is nonzero whenever the admission check
  \<^verbatim>\<open>n >= categoryIdx + 1\<close> passes. With \<^verbatim>\<open>categoryIdx = 0\<close> and one slot the check
  passes (\<^verbatim>\<open>1 < 0 + 1\<close> is false), the divisor is \<^verbatim>\<open>1 - 1 = 0\<close>, and both
  \<^verbatim>\<open>configure\<close> functions divide by it.
\<close>

theorem C3_division_by_zero_admitted:
  "\<not> sint (1 :: 32 word) < sint (0 :: 32 word) + 1
   \<and> (1 :: 32 word) - 1 = 0
   \<and> check_shape 0 1 1 0 = Inl DivisionByZero
   \<and> ProcLikelihood_configure \<lparr>pdfs = [], categoryIdx = 0, nCategories = 1, bias = 1\<rparr>
         (conf_begin 1) 1 = Inl DivisionByZero
   \<and> ProcNormalize_configure \<lparr>maps = [], categoryIdx = 0, nCategories = 1\<rparr>
         (conf_begin 1) 1 = Inl DivisionByZero"
  by (simp add: check_shape_def ProcLikelihood_configure_def ProcNormalize_configure_def)

text \<open>
  Claim C7 says that \<^verbatim>\<open>configure\<close> returns without declaring any output whenever the
  table size is not \<^verbatim>\<open>nCategories * (n - 1)\<close> for any \<^verbatim>\<open>nCategories\<close>. With
  \<^verbatim>\<open>categoryIdx = 0\<close>, one slot and a table of five entries, five is no multiple of
  \<^verbatim>\<open>n - 1 = 0\<close>, and neither function returns: both divide by zero. Where the
  division is defined the functions do return without a declaration
  (\<open>configure_mismatch\<close> with \<open>check_shape_returns\<close> above).
\<close>

theorem C7_mismatch_with_one_slot:
  "(\<nexists>k. length (replicate 5 (constant_pair 1 1)) = k * unat (1 - 1 :: 32 word))
   \<and> ProcLikelihood_configure
         \<lparr>pdfs = replicate 5 (constant_pair 1 1), categoryIdx = 0, nCategories = 1, bias = 1\<rparr>
         (conf_begin 1) 1 = Inl DivisionByZero
   \<and> (\<nexists>k. length (replicate 5 uniform_map) = k * unat (1 - 1 :: 32 word))
   \<and> ProcNormalize_configure
         \<lparr>maps = replicate 5 uniform_map, categoryIdx = 0, nCategories = 1\<rparr>
         (conf_begin 1) 1 = Inl DivisionByZero"
  by (simp add: check_shape_def ProcLikelihood_configure_def ProcNormalize_configure_def)

text \<open>
  Claim C10 says that a \<^verbatim>\<open>configure\<close> that fails the divisibility check returns with
  the field \<^verbatim>\<open>nCategories\<close> overwritten by the truncated quotient, and that it does
  not leave the field at its prior value, 1 from construction. With four slots and five
  entries the check fails (\<^verbatim>\<open>1 * 3\<close> is not 5), and the quotient stored is
  \<^verbatim>\<open>5 / 3 = 1\<close>: the field holds its prior value after the return.
\<close>

theorem C10_quotient_equal_to_prior_counterexample:
  "unat ((word_of_nat (5 div unat (4 - 1 :: 32 word)) :: 32 word) * (4 - 1)) \<noteq> 5
   \<and> ProcLikelihood.nCategories
         \<lparr>pdfs = replicate 5 (constant_pair 1 1), categoryIdx = 0, nCategories = 1, bias = 1\<rparr>
       = 1
   \<and> ProcLikelihood_configure
         \<lparr>pdfs = replicate 5 (constant_pair 1 1), categoryIdx = 0, nCategories = 1, bias = 1\<rparr>
         (conf_begin 4) 4
       = Inr (\<lparr>pdfs = replicate 5 (constant_pair 1 1), categoryIdx = 0, nCategories = 1,
               bias = 1\<rparr>, conf_begin 4)
   \<and> ProcNormalize.nCategories
         \<lparr>maps = replicate 5 uniform_map, categoryIdx = 0, nCategories = 1\<rparr> = 1
   \<and> ProcNormalize_configure
         \<lparr>maps = replicate 5 uniform_map, categoryIdx = 0, nCategories = 1\<rparr> (conf_begin 4) 4
       = Inr (\<lparr>maps = replicate 5 uniform_map, categoryIdx = 0, nCategories = 1\<rparr>,
              conf_begin 4)"
  by (simp add: ProcLikelihood_configure_def ProcNormalize_configure_def check_shape_def)

text \<open>
  Claim C10, amended: with \<^verbatim>\<open>categoryIdx >= 0\<close> and \<^verbatim>\<open>n > categoryIdx\<close>, when the check
  \<^verbatim>\<open>nCategories * (n - 1) != size\<close> is reached (the division is defined) and fails,
  both \<^verbatim>\<open>configure\<close> functions return with nothing declared and with the field
  \<^verbatim>\<open>nCategories\<close> overwritten by the truncated quotient \<^verbatim>\<open>size / (n - 1)\<close>; the
  field is at its prior value afterwards exactly when that quotient is the prior value.
\<close>

theorem C10_failed_check_stores_quotient:
  assumes "0 \<le> sint catIdx" and "sint catIdx < sint n" and "n - 1 \<noteq> 0"
    and "ProcLikelihood.categoryIdx p = catIdx" and "ProcNormalize.categoryIdx q = catIdx"
    and "unat ((word_of_nat (length (pdfs p) div unat (n - 1)) :: 32 word) * (n - 1))
           \<noteq> length (pdfs p)"
    and "unat ((word_of_nat (length (maps q) div unat (n - 1)) :: 32 word) * (n - 1))
           \<noteq> length (maps q)"
  shows "\<exists>p' q'.
           ProcLikelihood_configure p iter n = Inr (p', iter)
         \<and> p' = p\<lparr>ProcLikelihood.nCategories :=
                    word_of_nat (length (pdfs p) div unat (n - 1))\<rparr>
         \<and> (ProcLikelihood.nCategories p' = ProcLikelihood.nCategories p
              \<longleftrightarrow> word_of_nat (length (pdfs p) div unat (n - 1))
                    = ProcLikelihood.nCategories p)
         \<and> ProcNormalize_configure q iter n = Inr (q', iter)
         \<and> q' = q\<lparr>ProcNormalize.nCategories :=
                    word_of_nat (length (maps q) div unat (n - 1))\<rparr>
         \<and> (ProcNormalize.nCategories q' = ProcNormalize.nCategories q
              \<longleftrightarrow> word_of_nat (length (maps q) div unat (n - 1))
                    = ProcNormalize.nCategories q)"
proof -
  from assms(2) have "sint catIdx \<noteq> 2 ^ 31 - 1"
    using sint_lt [of n] by simp
  with assms show ?thesis
    by (simp add: ProcLikelihood_configure_def ProcNormalize_configure_def check_shape_def
                  Let_def)
qed

text \<open>Four slots: with seven entries the field goes from 1 to 2, with five it stays at 1.\<close>

theorem C10_witness:
  "(\<exists>p' q'.
      ProcLikelihood_configure
        \<lparr>pdfs = replicate 7 (constant_pair 1 1), categoryIdx = 0, nCategories = 1, bias = 1\<rparr>
        (conf_begin 4) 4 = Inr (p', conf_begin 4)
    \<and> ProcLikelihood.nCategories p' = 2
    \<and> ProcNormalize_configure
        \<lparr>maps = replicate 7 uniform_map, categoryIdx = 0, nCategories = 1\<rparr>
        (conf_begin 4) 4 = Inr (q', conf_begin 4)
    \<and> ProcNormalize.nCategories q' = 2)
   \<and> (\<exists>p' q'.
      ProcLikelihood_configure
        \<lparr>pdfs = replicate 5 (constant_pair 1 1), categoryIdx = 0, nCategories = 1, bias = 1\<rparr>
        (conf_begin 4) 4 = Inr (p', conf_begin 4)
    \<and> ProcLikelihood.nCategories p' = 1
    \<and> ProcNormalize_configure
        \<lparr>maps = replicate 5 uniform_map, categoryIdx = 0, nCategories = 1\<rparr>
        (conf_begin 4) 4 = Inr (q', conf_begin 4)
    \<and> ProcNormalize.nCategories q' = 1)"
  using C10_failed_check_stores_quotient
    [of 0 4 "\<lparr>pdfs = replicate 7 (constant_pair 1 1), categoryIdx = 0, nCategories = 1, bias = 1\<rparr>"
        "\<lparr>maps = replicate 7 uniform_map, categoryIdx = 0, nCategories = 1\<rparr>" "conf_begin 4"]
    C10_failed_check_stores_quotient
    [of 0 4 "\<lparr>pdfs = replicate 5 (constant_pair 1 1), categoryIdx = 0, nCategories = 1, bias = 1\<rparr>"
        "\<lparr>maps = replicate 5 uniform_map, categoryIdx = 0, nCategories = 1\<rparr>" "conf_begin 4"]
  by simp

section \<open>Evaluation: the loops\<close>

lemma without_category_eq:
  "without_category c i ss =
     (if i \<le> c then take (nat (c - i)) ss @ drop (Suc (nat (c - i))) ss else ss)"
proof (induction ss arbitrary: i)
  case Nil
  show ?case by simp
next
  case (Cons s ss)
  show ?case
  proof (cases "i = c")
    case True
    then show ?thesis by (simp add: Cons.IH)
  next
    case False
    show ?thesis
    proof (cases "i < c")
      case True
      then have "nat (c - i) = Suc (nat (c - (i + 1)))" by simp
      with True show ?thesis by (simp add: Cons.IH)
    next
      case False
      with \<open>i \<noteq> c\<close> show ?thesis by (simp add: Cons.IH)
    qed
  qed
qed

lemma without_category_start:
  "without_category (sint catIdx) 0 slots = non_category_slots catIdx slots"
  by (simp add: without_category_eq non_category_slots_def)

lemma likelihood_values_eq:
  "likelihood_values pdf vs (vars, sg, bk) =
     (vars + int (length (filter informative (map (Pair pdf) vs))),
      sg * prod_list (map clamped_signal (filter informative (map (Pair pdf) vs))),
      bk * prod_list (map clamped_background (filter informative (map (Pair pdf) vs))))"
  by (induction vs arbitrary: vars sg bk)
     (simp_all add: informative_def clamped_signal_def clamped_background_def Let_def)

lemma likelihood_fold_eq:
  "foldl (\<lambda>a (pdf, vs). likelihood_values pdf vs a) (vars, sg, bk) (zip block slots) =
     (vars + int (length (informative_values block slots)),
      sg * prod_list (map clamped_signal (informative_values block slots)),
      bk * prod_list (map clamped_background (informative_values block slots)))"
proof (induction block arbitrary: slots vars sg bk)
  case Nil
  show ?case by (simp add: informative_values_def paired_values_def)
next
  case (Cons pdf block)
  show ?case
  proof (cases slots)
    case Nil
    then show ?thesis by (simp add: informative_values_def paired_values_def)
  next
    case (Cons vs rest)
    have step: "informative_values (pdf # block) (vs # rest) =
                  filter informative (map (Pair pdf) vs) @ informative_values block rest"
      by (simp add: informative_values_def paired_values_def)
    show ?thesis
      unfolding Cons step
      by (simp add: likelihood_values_eq Cons.IH mult.assoc)
  qed
qed

lemma likelihood_loop_result:
  "length block \<le> length (without_category (sint c) i (inputs iter)) \<Longrightarrow>
   \<exists>iter'. likelihood_loop c block i iter acc =
             Inr (iter', foldl (\<lambda>a (pdf, vs). likelihood_values pdf vs a) acc
                           (zip block (without_category (sint c) i (inputs iter))))
           \<and> pending iter' = pending iter \<and> outputs iter' = outputs iter"
proof (induction c block i iter acc rule: likelihood_loop.induct)
  case (1 catIdx i iter acc)
  show ?case by simp
next
  case (2 catIdx pdf rest i iter acc)
  from "2.prems" obtain s ss where inp: "inputs iter = s # ss"
    by (cases "inputs iter") auto
  show ?case
  proof (cases "i = sint catIdx")
    case True
    with "2.prems" inp
    have "length (pdf # rest)
            \<le> length (without_category (sint catIdx) (i + 1) (inputs (iter_advance iter)))"
      by (simp add: iter_advance_def)
    from "2.IH"(1) [OF True this] True inp show ?thesis
      by (simp add: iter_advance_def)
  next
    case False
    have vals: "iter_values iter = Inr s"
      by (simp add: iter_values_def inp)
    from False "2.prems" inp
    have "length rest
            \<le> length (without_category (sint catIdx) (i + 1) (inputs (iter_advance iter)))"
      by (simp add: iter_advance_def)
    from "2.IH"(2) [OF False vals this] False inp vals show ?thesis
      by (simp add: iter_advance_def)
  qed
qed

lemma select_block_out_of_range:
  assumes "0 \<le> sint catIdx" and "read_category catIdx iter = Inr cat"
    and "cat < 0 \<or> uint nCat \<le> cat"
  shows "select_block catIdx nCat table n iter = Inr None"
  using assms by (simp add: select_block_def)

lemma select_block_in_range:
  assumes conf: "configured catIdx nCat n (length table)" and ge: "0 \<le> sint catIdx"
    and rd: "read_category catIdx iter = Inr cat"
    and lo: "0 \<le> cat" and hi: "cat < uint nCat"
  shows "select_block catIdx nCat table n iter =
           Inr (Some (take (unat (n - 1)) (drop (nat cat * unat (n - 1)) table)))"
proof -
  let ?m = "unat (n - 1)"
  note sz = configured_category(1) [OF conf ge] and small = configured_category(6) [OF conf ge]
  from lo hi have k: "nat cat < unat nCat"
    by (simp add: nat_less_iff)
  then have "Suc (nat cat) * ?m \<le> unat nCat * ?m"
    by (intro mult_le_mono1) simp
  with sz have fits: "nat cat * ?m + ?m \<le> length table" by simp
  have "unat nCat < 2 ^ 32" using unsigned_less [of nCat] by simp
  with k have "nat cat < 2 ^ 32" by simp
  with lo have w: "unat (word_of_int cat :: 32 word) = nat cat"
    by (simp add: unat_eq_nat_uint uint_word_of_int take_bit_int_eq_self nat_less_iff)
  from fits small have "nat cat * ?m < 2 ^ 32" by simp
  then have first: "unat ((word_of_int cat :: 32 word) * (n - 1)) = nat cat * ?m"
    by (simp add: unat_word_ariths w)
  from ge rd lo hi fits show ?thesis
    by (simp add: select_block_def first Let_def)
qed

lemma selected_block_length:
  assumes conf: "configured catIdx nCat n (length table)" and len: "length slots = unat n"
    and sel: "select_block catIdx nCat table n iter = Inr (Some block)"
  shows "length block = length (non_category_slots catIdx slots)"
proof (cases "0 \<le> sint catIdx")
  case True
  note un = configured_category(4) [OF conf True] and lt = configured_category(5) [OF conf True]
  from sel True have "length block = unat (n - 1)"
    by (auto simp: select_block_def Let_def split: sum.splits if_splits)
  moreover from True lt len un
  have "length (non_category_slots catIdx slots) = unat (n - 1)"
    by (simp add: non_category_slots_def)
  ultimately show ?thesis by simp
next
  case False
  with sel have "block = table" by (simp add: select_block_def)
  moreover from False conf have "length table = unat n"
    by (simp add: configured_no_category)
  ultimately show ?thesis using False len by (simp add: non_category_slots_def)
qed

lemma ProcLikelihood_eval_selected:
  assumes sel: "select_block (ProcLikelihood.categoryIdx p) (ProcLikelihood.nCategories p)
                  (pdfs p) n (iter_begin slots) = Inr (Some block)"
    and len: "length block \<le> length (non_category_slots (ProcLikelihood.categoryIdx p) slots)"
  shows "\<exists>iter'. ProcLikelihood_eval p (iter_begin slots) n = Inr iter'
           \<and> outputs iter' =
               [let ivs = informative_values block
                            (non_category_slots (ProcLikelihood.categoryIdx p) slots);
                    sig = combined_signal (bias p) ivs;
                    bkg = combined_background ivs in
                if informative_count ivs = 0
                   \<or> sig + bkg < exp (of_int (- 6 * informative_count ivs - 2))
                then [] else [sig / (sig + bkg)]]"
proof -
  let ?c = "ProcLikelihood.categoryIdx p"
  let ?ivs = "informative_values block (non_category_slots ?c slots)"
  have pend0: "pending (iter_begin slots) = []"
    and outs0: "outputs (iter_begin slots) = []"
    and inp: "inputs (iter_begin slots) = slots"
    by (simp_all add: iter_begin_def)
  from len have "length block \<le> length (without_category (sint ?c) 0 (inputs (iter_begin slots)))"
    by (simp add: without_category_start inp)
  from likelihood_loop_result [OF this, of "(0, bias p, 1)"]
  obtain iter' where loop: "likelihood_loop ?c block 0 (iter_begin slots) (0, bias p, 1) =
      Inr (iter', int (length ?ivs), bias p * prod_list (map clamped_signal ?ivs),
           1 * prod_list (map clamped_background ?ivs))"
    and pend: "pending iter' = []" and outs: "outputs iter' = []"
    by (auto simp: likelihood_fold_eq without_category_start inp pend0 outs0)
  show ?thesis
    using pend outs
    by (simp add: ProcLikelihood_eval_def sel loop Let_def informative_count_def
                  combined_signal_def combined_background_def
                  iter_close_def iter_emit_def iter_put_def)
qed

lemma normalize_values_eq:
  "normalize_values m vs iter = iter\<lparr>pending := pending iter @ map (normalized m) vs\<rparr>"
  by (induction vs arbitrary: iter) (simp_all add: iter_put_def normalized_def)

lemma normalize_loop_result:
  "pending iter = [] \<Longrightarrow>
   length block \<le> length (without_category (sint c) i (inputs iter)) \<Longrightarrow>
   \<exists>iter'. normalize_loop c block i iter = Inr iter' \<and> pending iter' = []
           \<and> outputs iter' = outputs iter
                @ map (\<lambda>(m, vs). map (normalized m) vs)
                    (zip block (without_category (sint c) i (inputs iter)))"
proof (induction c block i iter rule: normalize_loop.induct)
  case (1 catIdx i iter)
  then show ?case by simp
next
  case (2 catIdx m rest i iter)
  from "2.prems" obtain s ss where inp: "inputs iter = s # ss"
    by (cases "inputs iter") auto
  show ?case
  proof (cases "i = sint catIdx")
    case True
    with "2.prems" inp
    have "pending (iter_advance iter) = []"
      and "length (m # rest)
            \<le> length (without_category (sint catIdx) (i + 1) (inputs (iter_advance iter)))"
      by (simp_all add: iter_advance_def)
    from "2.IH"(1) [OF True this] True inp show ?thesis
      by (simp add: iter_advance_def)
  next
    case False
    let ?next = "iter_advance (iter_close (normalize_values m s iter))"
    have vals: "iter_values iter = Inr s"
      by (simp add: iter_values_def inp)
    from False "2.prems" inp
    have "pending ?next = []"
      and "length rest \<le> length (without_category (sint catIdx) (i + 1) (inputs ?next))"
      by (simp_all add: iter_advance_def iter_close_def normalize_values_eq)
    from "2.IH"(2) [OF False vals this] False inp vals "2.prems"(1) show ?thesis
      by (simp add: iter_advance_def iter_close_def normalize_values_eq)
  qed
qed

lemma ProcNormalize_eval_selected:
  assumes sel: "select_block (ProcNormalize.categoryIdx p) (ProcNormalize.nCategories p)
                  (maps p) n (iter_begin slots) = Inr (Some block)"
    and len: "length block \<le> length (non_category_slots (ProcNormalize.categoryIdx p) slots)"
  shows "\<exists>iter'. ProcNormalize_eval p (iter_begin slots) n = Inr iter'
           \<and> outputs iter' =
               map (\<lambda>(m, vs). map (normalized m) vs)
                 (zip block (non_category_slots (ProcNormalize.categoryIdx p) slots))"
proof -
  let ?c = "ProcNormalize.categoryIdx p"
  have pend: "pending (iter_begin slots) = []"
    and outs: "outputs (iter_begin slots) = []"
    and inp: "inputs (iter_begin slots) = slots"
    by (simp_all add: iter_begin_def)
  from len
  have "length block \<le> length (without_category (sint ?c) 0 (inputs (iter_begin slots)))"
    by (simp add: without_category_start inp)
  from normalize_loop_result [OF pend this]
  obtain iter' where "normalize_loop ?c block 0 (iter_begin slots) = Inr iter'"
    and "outputs iter' = map (\<lambda>(m, vs). map (normalized m) vs)
                           (zip block (non_category_slots ?c slots))"
    by (auto simp: without_category_start inp outs)
  then show ?thesis
    by (simp add: ProcNormalize_eval_def sel)
qed

lemma normalize_abstain_result:
  "pending iter = [] \<Longrightarrow>
   normalize_abstain iter =
     iter\<lparr>inputs := [], outputs := outputs iter @ replicate (length (inputs iter)) []\<rparr>"
proof (induction iter rule: normalize_abstain.induct)
  case (1 iter)
  show ?case
  proof (cases "inputs iter")
    case Nil
    then have "normalize_abstain iter = iter"
      by (subst normalize_abstain.simps) (simp add: iter_more_def)
    with Nil show ?thesis by simp
  next
    case (Cons s ss)
    then have more: "iter_more iter" by (simp add: iter_more_def)
    then have unfold: "normalize_abstain iter = normalize_abstain (iter_advance (iter_close iter))"
      by (subst normalize_abstain.simps) simp
    from "1.prems" have "pending (iter_advance (iter_close iter)) = []"
      by (simp add: iter_advance_def iter_close_def)
    from "1.IH" [OF more this] Cons "1.prems" show ?thesis
      unfolding unfold
      by (simp add: iter_advance_def iter_close_def replicate_append_same)
  qed
qed

lemma read_category_first_slot:
  "read_category catIdx iter =
     (case iter_deref iter of Inl e \<Rightarrow> Inl e | Inr x \<Rightarrow> double_to_int x)"
  by (simp add: read_category_def Let_def)

lemma map_length_zip:
  "length xs = length ys \<Longrightarrow>
   map length (map (\<lambda>(m, vs). map (f m) vs) (zip xs ys)) = map length ys"
  by (induction xs ys rule: list_induct2) simp_all

lemma exp_nonpositive_small: "x \<le> 0 \<Longrightarrow> 1 \<le> y \<Longrightarrow> \<not> y < exp (x :: real)"
proof -
  assume "x \<le> 0" and "1 \<le> y"
  then have "exp x \<le> 1" by simp
  with \<open>1 \<le> y\<close> show "\<not> y < exp x" by linarith
qed

lemma exp_minus_8_lower: "1 / 50000 < exp (- 8 :: real)"
proof -
  have "exp (8 :: real) = exp (of_nat 8 * 1)" by simp
  also have "\<dots> = exp 1 ^ 8" by (rule exp_of_nat_mult)
  also have "\<dots> \<le> 3 ^ 8" by (rule power_mono) (simp_all add: exp_le)
  finally have "exp (8 :: real) < 50000" by simp
  then show ?thesis by (simp add: exp_minus field_simps)
qed

section \<open>The claims about evaluation\<close>

text \<open>
  Claim C1 says that with \<^verbatim>\<open>categoryIdx >= 0\<close> the category is read from the slot of
  index \<^verbatim>\<open>categoryIdx\<close> and from no other slot. Both \<^verbatim>\<open>eval\<close> functions move the
  copy \<^verbatim>\<open>iter2\<close> to that slot and then read \<^verbatim>\<open>*iter\<close>, the first slot. In a
  processor configured with \<^verbatim>\<open>categoryIdx = 1\<close> and one category, on the event whose
  slot 1 holds the category 0 and whose slot 0 holds the value 7, the category read is 7,
  and both processors take the branch of a category out of range.
\<close>

theorem C1_category_read_from_first_slot:
  "configured 1 1 2 (length [constant_pair 1 1])
   \<and> [[7], [0 :: real]] ! nat (sint (1 :: 32 word)) = [0]
   \<and> read_category 1 (iter_begin [[7], [0]]) = Inr 7
   \<and> ProcLikelihood_eval \<lparr>pdfs = [constant_pair 1 1], categoryIdx = 1, nCategories = 1, bias = 1\<rparr>
         (iter_begin [[7], [0]]) 2
       = Inr \<lparr>inputs = [[7], [0]], pending = [], outputs = [[]]\<rparr>
   \<and> ProcNormalize_eval \<lparr>maps = [uniform_map], categoryIdx = 1, nCategories = 1\<rparr>
         (iter_begin [[7], [0]]) 2
       = Inr \<lparr>inputs = [], pending = [], outputs = [[], []]\<rparr>"
  by (simp add: configured_def check_shape_def ProcLikelihood_eval_def ProcNormalize_eval_def
                select_block_def read_category_first_slot iter_deref_def double_to_int_def
                iter_close_def normalize_abstain_result iter_begin_def)

text \<open>
  Claim C4 says that with \<^verbatim>\<open>categoryIdx >= 0\<close> a block is selected and the slots are
  processed if and only if the category value is at least 0 and below
  \<^verbatim>\<open>nCategories\<close>, and that any other value makes the processor abstain. The range
  check is made on the value read from the first slot. In processors configured with
  \<^verbatim>\<open>categoryIdx = 1\<close> and two categories of one variable each: on the event whose
  selector slot holds the category 1 and whose slot 0 holds 5, both processors abstain
  although the category is in range; on the event whose selector slot holds 5 and whose
  slot 0 holds 1, both processors select the second block and process slot 0 although the
  category is out of range.
\<close>

theorem C4_range_check_on_first_slot:
  "configured 1 2 2 (length [constant_pair 1 1, constant_pair 2 1])
   \<and> configured 1 2 2 (length [uniform_map, uniform_map])
   \<and> [[5], [1 :: real]] ! nat (sint (1 :: 32 word)) = [1]
   \<and> ProcLikelihood_eval
         \<lparr>pdfs = [constant_pair 1 1, constant_pair 2 1], categoryIdx = 1, nCategories = 2,
          bias = 1\<rparr> (iter_begin [[5], [1]]) 2
       = Inr \<lparr>inputs = [[5], [1]], pending = [], outputs = [[]]\<rparr>
   \<and> ProcNormalize_eval
         \<lparr>maps = [uniform_map, uniform_map], categoryIdx = 1, nCategories = 2\<rparr>
         (iter_begin [[5], [1]]) 2
       = Inr \<lparr>inputs = [], pending = [], outputs = [[], []]\<rparr>
   \<and> [[1], [5 :: real]] ! nat (sint (1 :: 32 word)) = [5]
   \<and> ProcLikelihood_eval
         \<lparr>pdfs = [constant_pair 1 1, constant_pair 2 1], categoryIdx = 1, nCategories = 2,
          bias = 1\<rparr> (iter_begin [[1], [5]]) 2
       = Inr \<lparr>inputs = [[5]], pending = [], outputs = [[2 / 3]]\<rparr>
   \<and> ProcNormalize_eval
         \<lparr>maps = [uniform_map, uniform_map], categoryIdx = 1, nCategories = 2\<rparr>
         (iter_begin [[1], [5]]) 2
       = Inr \<lparr>inputs = [[5]], pending = [], outputs = [[1]]\<rparr>"
proof -
  have guard: "\<not> (3 :: real) < exp (- 8)"
    by (rule exp_nonpositive_small) simp_all
  then show ?thesis
    by (simp add: configured_def check_shape_def ProcLikelihood_eval_def ProcNormalize_eval_def
                  select_block_def read_category_first_slot iter_deref_def double_to_int_def
                  iter_values_def iter_advance_def iter_close_def iter_emit_def iter_put_def
                  normalize_abstain_result iter_begin_def Let_def
                  constant_pair_def constant_histogram_def uniform_map_def)
qed

text \<open>
  Claim C2: in a likelihood evaluation that selects a PDF block, with the signal started
  at the bias, the background at 1, the densities of every value clamped at 0 and the
  values whose clamped densities sum to less than \<open>1e-30\<close> neither multiplied in nor
  counted, the processor abstains (closes its output without a value) if and only if the
  count is 0 or \<open>signal + background < exp (-6 * count - 2)\<close>, and otherwise emits the
  single value \<open>signal / (signal + background)\<close>.
\<close>

theorem C2_likelihood_decision:
  assumes "configured (ProcLikelihood.categoryIdx p) (ProcLikelihood.nCategories p) n
             (length (pdfs p))"
    and "length slots = unat n"
    and "select_block (ProcLikelihood.categoryIdx p) (ProcLikelihood.nCategories p)
           (pdfs p) n (iter_begin slots) = Inr (Some block)"
  shows "\<exists>iter'. ProcLikelihood_eval p (iter_begin slots) n = Inr iter'
           \<and> outputs iter' =
               [let ivs = informative_values block
                            (non_category_slots (ProcLikelihood.categoryIdx p) slots);
                    sig = combined_signal (bias p) ivs;
                    bkg = combined_background ivs in
                if informative_count ivs = 0
                   \<or> sig + bkg < exp (of_int (- 6 * informative_count ivs - 2))
                then [] else [sig / (sig + bkg)]]"
proof -
  from selected_block_length [OF assms]
  have "length block \<le> length (non_category_slots (ProcLikelihood.categoryIdx p) slots)"
    by simp
  with assms(3) show ?thesis by (rule ProcLikelihood_eval_selected)
qed

text \<open>Two variables of signal density 4 and background density 1: the output is \<open>16 / 17\<close>.\<close>

theorem C2_witness:
  "\<exists>iter'. ProcLikelihood_eval
             \<lparr>pdfs = [constant_pair 4 1, constant_pair 4 1], categoryIdx = - 1,
              nCategories = 1, bias = 1\<rparr> (iter_begin [[0], [0]]) 2 = Inr iter'
           \<and> outputs iter' = [[16 / 17]]"
proof -
  let ?p = "\<lparr>pdfs = [constant_pair 4 1, constant_pair 4 1], categoryIdx = - 1,
              nCategories = 1, bias = 1\<rparr>"
  have conf: "configured (ProcLikelihood.categoryIdx ?p) (ProcLikelihood.nCategories ?p) 2
                (length (pdfs ?p))"
    by (simp add: configured_def check_shape_def)
  have len: "length [[0], [0 :: real]] = unat (2 :: 32 word)" by simp
  have sel: "select_block (ProcLikelihood.categoryIdx ?p) (ProcLikelihood.nCategories ?p)
               (pdfs ?p) 2 (iter_begin [[0], [0]]) = Inr (Some (pdfs ?p))"
    by (simp add: select_block_def)
  have ivs: "informative_values (pdfs ?p) (non_category_slots (ProcLikelihood.categoryIdx ?p)
               [[0], [0]]) = [(constant_pair 4 1, 0), (constant_pair 4 1, 0)]"
    by (simp add: informative_values_def paired_values_def non_category_slots_def
                  informative_def clamped_signal_def clamped_background_def
                  constant_pair_def constant_histogram_def)
  have "exp (- 14 :: real) \<le> 1" by simp
  then have guard: "\<not> (17 :: real) < exp (- 14)" by linarith
  have out: "(let ivs = informative_values (pdfs ?p)
                          (non_category_slots (ProcLikelihood.categoryIdx ?p) [[0], [0]]);
                  sig = combined_signal (bias ?p) ivs;
                  bkg = combined_background ivs in
              if informative_count ivs = 0
                 \<or> sig + bkg < exp (of_int (- 6 * informative_count ivs - 2))
              then [] else [sig / (sig + bkg)]) = [16 / 17]"
    unfolding Let_def ivs using guard
    by (simp add: informative_count_def combined_signal_def combined_background_def
                  clamped_signal_def clamped_background_def
                  constant_pair_def constant_histogram_def)
  from C2_likelihood_decision [OF conf len sel] show ?thesis
    unfolding out by simp
qed

text \<open>
  Claim C5: in a normalization evaluation that selects a map block, the non-category
  slots are paired in order with the maps of the block, and the output of a slot holds,
  for each of its values \<open>v\<close> in order, the one value
  \<open>integral ((v - min) / width)\<close> of its map; so the outputs have the lengths of the
  non-category slots, empty slots included.
\<close>

theorem C5_normalization_preserves_arity:
  assumes "configured (ProcNormalize.categoryIdx p) (ProcNormalize.nCategories p) n
             (length (maps p))"
    and "length slots = unat n"
    and "select_block (ProcNormalize.categoryIdx p) (ProcNormalize.nCategories p)
           (maps p) n (iter_begin slots) = Inr (Some block)"
  shows "\<exists>iter'. ProcNormalize_eval p (iter_begin slots) n = Inr iter'
           \<and> outputs iter' =
               map2 (\<lambda>m vs. map (\<lambda>v. spline_integral (spline m) ((v - range_min m) / width m)) vs)
                 block (non_category_slots (ProcNormalize.categoryIdx p) slots)
           \<and> map length (outputs iter') =
               map length (non_category_slots (ProcNormalize.categoryIdx p) slots)"
proof -
  let ?others = "non_category_slots (ProcNormalize.categoryIdx p) slots"
  from selected_block_length [OF assms] have len: "length block = length ?others" .
  then have "length block \<le> length ?others" by simp
  from ProcNormalize_eval_selected [OF assms(3) this]
  obtain iter' where ev: "ProcNormalize_eval p (iter_begin slots) n = Inr iter'"
    and outs: "outputs iter' = map (\<lambda>(m, vs). map (normalized m) vs) (zip block ?others)"
    by blast
  from len
  have "map length (map (\<lambda>(m, vs). map (normalized m) vs) (zip block ?others))
          = map length ?others"
    by (rule map_length_zip)
  with ev outs show ?thesis
    by (simp add: normalized_def [abs_def])
qed

text \<open>Three slots, the middle one the category: arities 2 and 0 are preserved.\<close>

theorem C5_witness:
  "\<exists>iter'. ProcNormalize_eval \<lparr>maps = [uniform_map, uniform_map], categoryIdx = 1, nCategories = 1\<rparr>
             (iter_begin [[1 / 4, 3 / 4], [0], []]) 3 = Inr iter'
           \<and> outputs iter' = [[1 / 4, 3 / 4], []]
           \<and> map length (outputs iter') = map length [[1 / 4, 3 / 4], [] :: real list]"
proof -
  let ?p = "\<lparr>maps = [uniform_map, uniform_map], categoryIdx = 1, nCategories = 1\<rparr>"
  have conf: "configured (ProcNormalize.categoryIdx ?p) (ProcNormalize.nCategories ?p) 3
                (length (maps ?p))"
    by (simp add: configured_def check_shape_def)
  have len: "length [[1 / 4, 3 / 4], [0], [] :: real list] = unat (3 :: 32 word)" by simp
  have sel: "select_block (ProcNormalize.categoryIdx ?p) (ProcNormalize.nCategories ?p)
               (maps ?p) 3 (iter_begin [[1 / 4, 3 / 4], [0], []]) = Inr (Some (maps ?p))"
    by (simp add: select_block_def read_category_first_slot iter_deref_def iter_begin_def
                  double_to_int_def)
  from C5_normalization_preserves_arity [OF conf len sel] show ?thesis
    by (simp add: non_category_slots_def uniform_map_def)
qed

text \<open>
  The bias is multiplied into the signal with no check of its sign. With the bias
  \<open>-1\<close>, signal density 1 and background density 3 the value is informative, the
  guard holds (\<open>-1 + 3 \<ge> exp (-8)\<close>) and the value emitted is \<open>-1 / 2\<close>.
\<close>

lemma negative_bias_example:
  "configured (- 1) 1 1 (length [constant_pair 1 3])
   \<and> informative_values [constant_pair 1 3] [[0]] = [(constant_pair 1 3, 0)]
   \<and> \<not> combined_signal (- 1) [(constant_pair 1 3, 0)]
         + combined_background [(constant_pair 1 3, 0)]
         < exp (of_int (- 6 * informative_count [(constant_pair 1 3, 0)] - 2))
   \<and> ProcLikelihood_eval
         \<lparr>pdfs = [constant_pair 1 3], categoryIdx = - 1, nCategories = 1, bias = - 1\<rparr>
         (iter_begin [[0]]) 1
       = Inr \<lparr>inputs = [], pending = [], outputs = [[- 1 / 2]]\<rparr>
   \<and> \<not> (0 :: real) \<le> - 1 / 2"
proof -
  have guard: "\<not> (2 :: real) < exp (- 8)"
    by (rule exp_nonpositive_small) simp_all
  then show ?thesis
    by (simp add: configured_def check_shape_def informative_values_def paired_values_def
                  informative_def clamped_signal_def clamped_background_def
                  combined_signal_def combined_background_def informative_count_def
                  constant_pair_def constant_histogram_def
                  ProcLikelihood_eval_def select_block_def iter_values_def iter_advance_def
                  iter_emit_def iter_put_def iter_close_def iter_begin_def)
qed

text \<open>
  Claim C8 says that on a category out of range the normalization processor emits one
  empty output for every non-category slot and for those only. The loop of that branch
  runs over every input slot from the first one on, the category slot included: with
  \<^verbatim>\<open>categoryIdx = 0\<close>, one category and two slots, the category 5 is out of range,
  there is one non-category slot, and two empty outputs are closed.
\<close>

theorem C8_abstention_closes_every_slot:
  "configured 0 1 2 (length [uniform_map])
   \<and> length (non_category_slots (0 :: 32 word) [[5], [3 / 10 :: real]]) = 1
   \<and> ProcNormalize_eval \<lparr>maps = [uniform_map], categoryIdx = 0, nCategories = 1\<rparr>
         (iter_begin [[5], [3 / 10]]) 2
       = Inr \<lparr>inputs = [], pending = [], outputs = [[], []]\<rparr>"
  by (simp add: configured_def check_shape_def ProcNormalize_eval_def non_category_slots_def
                select_block_def read_category_first_slot iter_deref_def double_to_int_def
                normalize_abstain_result iter_begin_def)

text \<open>
  Claim C9 says that with the bias 1 and one informative value whose two densities are
  equal the output is \<open>0.5\<close>. With both densities \<open>1e-5\<close> the value is informative,
  but \<open>signal + background = 2e-5 < exp (-8)\<close>: the processor abstains.
\<close>

theorem C9_small_density_counterexample:
  "configured (- 1) 1 1 (length [constant_pair (1 / 100000) (1 / 100000)])
   \<and> PDF_eval (signal (constant_pair (1 / 100000) (1 / 100000))) 0
       = PDF_eval (background (constant_pair (1 / 100000) (1 / 100000))) 0
   \<and> informative_values [constant_pair (1 / 100000) (1 / 100000)] [[0]]
       = [(constant_pair (1 / 100000) (1 / 100000), 0)]
   \<and> ProcLikelihood_eval
         \<lparr>pdfs = [constant_pair (1 / 100000) (1 / 100000)], categoryIdx = - 1,
          nCategories = 1, bias = 1\<rparr>
         (iter_begin [[0]]) 1
       = Inr \<lparr>inputs = [], pending = [], outputs = [[]]\<rparr>"
  using exp_minus_8_lower
  by (simp add: configured_def check_shape_def informative_values_def paired_values_def
                informative_def clamped_signal_def clamped_background_def
                constant_pair_def constant_histogram_def Let_def
                ProcLikelihood_eval_def select_block_def iter_values_def iter_advance_def
                iter_emit_def iter_put_def iter_close_def iter_begin_def)

text \<open>
  Claim C9, amended: in a likelihood evaluation with the bias 1 in which exactly one value
  is informative and its signal density \<open>d\<close> equals its background density, the output
  is \<open>0.5\<close> when the guard \<open>2 * d \<ge> exp (-8)\<close> holds, and the processor abstains
  otherwise.
\<close>

theorem C9_equal_densities:
  assumes "configured (ProcLikelihood.categoryIdx p) (ProcLikelihood.nCategories p) n
             (length (pdfs p))"
    and "length slots = unat n"
    and "select_block (ProcLikelihood.categoryIdx p) (ProcLikelihood.nCategories p)
           (pdfs p) n (iter_begin slots) = Inr (Some block)"
    and "bias p = 1"
    and "informative_values block (non_category_slots (ProcLikelihood.categoryIdx p) slots)
           = [(pdf, v)]"
    and "PDF_eval (signal pdf) v = PDF_eval (background pdf) v"
  shows "\<exists>iter'. ProcLikelihood_eval p (iter_begin slots) n = Inr iter'
           \<and> outputs iter' =
               [if 2 * PDF_eval (signal pdf) v < exp (- 8) then [] else [1 / 2]]"
proof -
  let ?d = "PDF_eval (signal pdf) v"
  from selected_block_length [OF assms(1-3)]
  have "length block \<le> length (non_category_slots (ProcLikelihood.categoryIdx p) slots)"
    by simp
  from ProcLikelihood_eval_selected [OF assms(3) this]
  obtain iter' where ev: "ProcLikelihood_eval p (iter_begin slots) n = Inr iter'"
    and outs: "outputs iter' =
                 [if informative_count [(pdf, v)] = 0
                     \<or> combined_signal 1 [(pdf, v)] + combined_background [(pdf, v)]
                         < exp (of_int (- 6 * informative_count [(pdf, v)] - 2))
                  then []
                  else [combined_signal 1 [(pdf, v)]
                          / (combined_signal 1 [(pdf, v)] + combined_background [(pdf, v)])]]"
    by (auto simp: Let_def assms(4,5))
  have "(pdf, v) \<in> set (informative_values block
                           (non_category_slots (ProcLikelihood.categoryIdx p) slots))"
    by (simp add: assms(5))
  then have "informative (pdf, v)"
    by (simp add: informative_values_def)
  with assms(6) have pos: "0 < ?d"
    by (auto simp: informative_def clamped_signal_def clamped_background_def max_def
             split: if_splits)
  then have sg: "combined_signal 1 [(pdf, v)] = ?d"
    and bk: "combined_background [(pdf, v)] = ?d"
    using assms(6) by (simp_all add: combined_signal_def combined_background_def
                                     clamped_signal_def clamped_background_def)
  from pos have half: "?d / (?d + ?d) = 1 / 2" by (simp add: field_simps)
  show ?thesis
    using ev outs by (simp add: sg bk half informative_count_def)
qed

text \<open>Two variables, the second with both densities 0 and so not informative.\<close>

theorem C9_witness:
  "\<exists>iter'. ProcLikelihood_eval
             \<lparr>pdfs = [constant_pair 1 1, constant_pair 0 0], categoryIdx = - 1,
              nCategories = 1, bias = 1\<rparr> (iter_begin [[0], [0]]) 2 = Inr iter'
           \<and> outputs iter' = [[1 / 2]]"
proof -
  let ?p = "\<lparr>pdfs = [constant_pair 1 1, constant_pair 0 0], categoryIdx = - 1,
              nCategories = 1, bias = 1\<rparr>"
  have conf: "configured (ProcLikelihood.categoryIdx ?p) (ProcLikelihood.nCategories ?p) 2
                (length (pdfs ?p))"
    by (simp add: configured_def check_shape_def)
  have len: "length [[0], [0 :: real]] = unat (2 :: 32 word)" by simp
  have sel: "select_block (ProcLikelihood.categoryIdx ?p) (ProcLikelihood.nCategories ?p)
               (pdfs ?p) 2 (iter_begin [[0], [0]]) = Inr (Some (pdfs ?p))"
    by (simp add: select_block_def)
  have bias: "bias ?p = 1" by simp
  have ivs: "informative_values (pdfs ?p)
               (non_category_slots (ProcLikelihood.categoryIdx ?p) [[0], [0]])
             = [(constant_pair 1 1, 0)]"
    by (simp add: informative_values_def paired_values_def non_category_slots_def
                  informative_def clamped_signal_def clamped_background_def
                  constant_pair_def constant_histogram_def)
  have eq: "PDF_eval (signal (constant_pair 1 1)) 0 = PDF_eval (background (constant_pair 1 1)) 0"
    by (simp add: constant_pair_def)
  have "\<not> (2 :: real) < exp (- 8)"
    by (rule exp_nonpositive_small) simp_all
  then have out: "(if 2 * PDF_eval (signal (constant_pair 1 1)) 0 < exp (- 8) then []
                   else [1 / 2 :: real]) = [1 / 2]"
    by (simp add: constant_pair_def constant_histogram_def)
  from C9_equal_densities [OF conf len sel bias ivs eq] show ?thesis
    unfolding out by simp
qed

end
